theory Spec2Isabelle
  imports Complex_Main "HOL-Library.Sublist"
begin

section \<open>Text as Python sees it\<close>

text \<open>
  A Python \<open>str\<close> is a sequence of Unicode code points; a code point is a natural
  number here, so that the whitespace test of \<open>str.strip\<close> and of the regular
  expression class \<open>\s\<close> (both are \<open>Py_UNICODE_ISSPACE\<close>) can be written out in full.
  \<open>str\<close> turns an ASCII literal of the source into such a sequence.
\<close>

type_synonym pystr = "nat list"

definition str :: "string \<Rightarrow> pystr" where
  "str s = map of_char s"

abbreviation NL :: nat where
  "NL \<equiv> 10"

abbreviation CR :: nat where
  "CR \<equiv> 13"

definition is_space :: "nat \<Rightarrow> bool" where
  "is_space c \<longleftrightarrow>
     (9 \<le> c \<and> c \<le> 13) \<or> (28 \<le> c \<and> c \<le> 32) \<or> c = 133 \<or> c = 160 \<or> c = 5760 \<or>
     (8192 \<le> c \<and> c \<le> 8202) \<or> c = 8232 \<or> c = 8233 \<or> c = 8239 \<or> c = 8287 \<or>
     c = 12288"

text \<open>\<open>[A-Za-z_]\<close> and \<open>[A-Za-z0-9_]\<close> of the pattern in \<open>patch_rgbds_syntax\<close>.\<close>

definition is_ident_start :: "nat \<Rightarrow> bool" where
  "is_ident_start c \<longleftrightarrow> (65 \<le> c \<and> c \<le> 90) \<or> (97 \<le> c \<and> c \<le> 122) \<or> c = 95"

definition is_ident_char :: "nat \<Rightarrow> bool" where
  "is_ident_char c \<longleftrightarrow> is_ident_start c \<or> (48 \<le> c \<and> c \<le> 57)"

text \<open>\<open>s.strip()\<close>: whitespace removed at both ends.\<close>

definition strip :: "pystr \<Rightarrow> pystr" where
  "strip s = rev (dropWhile is_space (rev (dropWhile is_space s)))"

text \<open>\<open>s.startswith(p)\<close> and \<open>sub in s\<close>.\<close>

definition startswith :: "pystr \<Rightarrow> pystr \<Rightarrow> bool" where
  "startswith s p \<longleftrightarrow> prefix p s"

definition contains :: "pystr \<Rightarrow> pystr \<Rightarrow> bool" where
  "contains s sub \<longleftrightarrow> sublist sub s"

text \<open>\<open>s.split('\n')\<close>: never empty, one more piece than there are newlines.\<close>

fun split_nl :: "pystr \<Rightarrow> pystr list" where
  "split_nl [] = [[]]"
| "split_nl (c # cs) =
     (if c = NL then [] # split_nl cs
      else let ls = split_nl cs in (c # hd ls) # tl ls)"

text \<open>\<open>'\n'.join(ls)\<close>.\<close>

fun join_nl :: "pystr list \<Rightarrow> pystr" where
  "join_nl [] = []"
| "join_nl [l] = l"
| "join_nl (l # ls) = l @ NL # join_nl ls"

text \<open>
  \<open>open(path, 'r').read()\<close> reads in text mode with universal newlines: \<open>\r\n\<close> and a
  lone \<open>\r\<close> arrive as \<open>\n\<close>. \<open>open(path, 'w').write(s)\<close> writes \<open>\n\<close> as the
  platform's line separator, which is \<open>\n\<close> itself on POSIX: the text is stored as it is.
  A file's stored content is its decoded text; a file that does not decode raises, which
  is outside the executions modelled.
\<close>

fun read_text :: "pystr \<Rightarrow> pystr" where
  "read_text [] = []"
| "read_text [c] = [if c = CR then NL else c]"
| "read_text (c # d # cs) =
     (if c = CR \<and> d = NL then NL # read_text cs
      else if c = CR then NL # read_text (d # cs)
      else c # read_text (d # cs))"

definition write_text :: "pystr \<Rightarrow> pystr" where
  "write_text s = s"

section \<open>The syntax patcher\<close>

text \<open>
  \<open>re.match(r'^(\s*)([A-Za-z_][A-Za-z0-9_]*)(\s+EQU\s+.*)$', line)\<close>, returning the three
  groups. Whitespace, identifier characters and the letter \<open>E\<close> exclude one another, so
  each greedy run of the pattern is forced to be the longest one and no backtracking
  finds another match: the groups are computed left to right. \<open>.\<close> does not match a
  newline and \<open>$\<close> matches at the end or before a final newline (which then stays
  outside the third group).
\<close>

definition re_match_equ :: "pystr \<Rightarrow> (pystr \<times> pystr \<times> pystr) option" where
  "re_match_equ line =
     (let indent = takeWhile is_space line;
          r1 = dropWhile is_space line
      in case r1 of
           [] \<Rightarrow> None
         | c # r1' \<Rightarrow>
             if \<not> is_ident_start c then None
             else
               let symbol = c # takeWhile is_ident_char r1';
                   r2 = dropWhile is_ident_char r1';
                   ws1 = takeWhile is_space r2;
                   r3 = dropWhile is_space r2
               in if ws1 = [] then None
                  else if \<not> prefix (str ''EQU'') r3 then None
                  else
                    let r4 = drop 3 r3;
                        ws2 = takeWhile is_space r4;
                        r5 = dropWhile is_space r4;
                        val = takeWhile (\<lambda>c. c \<noteq> NL) r5;
                        r6 = dropWhile (\<lambda>c. c \<noteq> NL) r5
                    in if ws2 = [] then None
                       else if r6 = [] \<or> r6 = [NL]
                       then Some (indent, symbol, ws1 @ str ''EQU'' @ ws2 @ val)
                       else None)"

text \<open>The condition of the loop's first \<open>if\<close>: the line is appended as it is.\<close>

definition skip_line :: "pystr \<Rightarrow> bool" where
  "skip_line line \<longleftrightarrow>
     startswith (strip line) (str '';'') \<or>
     contains line (str ''DEF '') \<or>
     strip line = [] \<or>
     contains line (str ''INCLUDE'') \<or>
     contains line (str ''SECTION'') \<or>
     contains line (str ''EXPORT'')"

text \<open>The body of the loop over the lines: what is appended to \<open>fixed_lines\<close>.\<close>

definition patch_line :: "pystr \<Rightarrow> pystr" where
  "patch_line line =
     (if skip_line line then line
      else case re_match_equ line of
             Some (indent, symbol, rest) \<Rightarrow> indent @ str ''DEF '' @ symbol @ rest
           | None \<Rightarrow> line)"

text \<open>
  The two files the patcher touches: \<open>src/video.asm\<close> and its backup
  \<open>src/video.asm.bak\<close>; \<open>None\<close> is a file that does not exist.
\<close>

record asm_files =
  video_asm :: "pystr option"
  backup :: "pystr option"

text \<open>
  What the program prints: one constructor for each \<open>print\<close> of the source (a run of
  consecutive banner lines is one constructor). \<open>Text\<close> carries the one message whose
  content is computed, the listing of missing commands.
\<close>

datatype msg =
    Text pystr
  | AsmNotFound
  | CheckingSyntax
  | AlreadyPatched
  | Patching
  | BackupCreated
  | PatchedOk
  | MissingDepsHeader
  | InstallRgbdsHint
  | MissingPillow
  | PillowHint
  | MissingSoundfile
  | SoundfileHint
  | ExtractingFrames
  | FramesError
  | FramesExtracted nat int int real
  | ExtractingAudio
  | AudioFailedWarning
  | AudioExtracted
  | BuildingRom
  | MakefileNotFound
  | BuildError
  | RomNotFound
  | RomBuilt
  | InputNotFound
  | Banner real
  | CheckingDeps
  | AllDepsFound
  | PatchFailedWarning
  | ContinuingWithoutAudio
  | ConvertingNotes
  | Success
  | ErrorCaught

definition already_patched :: "pystr \<Rightarrow> bool" where
  "already_patched content \<longleftrightarrow> contains content (str ''DEF PULLDOWN_SKIPF EQU'')"

definition patch_rgbds_syntax :: "asm_files \<Rightarrow> bool \<times> msg list \<times> asm_files" where
  "patch_rgbds_syntax fs =
     (case video_asm fs of
        None \<Rightarrow> (True, [AsmNotFound], fs)
      | Some raw \<Rightarrow>
          let content = read_text raw
          in if already_patched content
             then (True, [CheckingSyntax, AlreadyPatched], fs)
             else
               let (m, fs1) =
                     (case backup fs of
                        None \<Rightarrow> ([BackupCreated], fs\<lparr>backup := Some raw\<rparr>)
                      | Some b \<Rightarrow> ([], fs));
                   lines = split_nl content;
                   fixed_lines = map patch_line lines
               in (True,
                   [CheckingSyntax, Patching] @ m @ [PatchedOk],
                   fs1\<lparr>video_asm := Some (write_text (join_nl fixed_lines))\<rparr>))"

section \<open>The dependency prober\<close>

text \<open>
  The environment: which commands \<open>shutil.which\<close> finds, and whether \<open>import PIL\<close>
  and \<open>import soundfile\<close> succeed.
\<close>

record environment =
  which :: "string \<Rightarrow> bool"
  has_PIL :: bool
  has_soundfile :: bool

text \<open>The dictionary \<open>deps\<close>, in insertion order (the order \<open>items()\<close> yields).\<close>

definition deps :: "(string \<times> string) list" where
  "deps =
     [(''ffmpeg'', ''FFmpeg (for video/audio processing)''),
      (''python3'', ''Python 3''),
      (''rgbasm'', ''RGBDS (Game Boy assembler)''),
      (''rgblink'', ''RGBDS linker''),
      (''rgbfix'', ''RGBDS ROM fixer'')]"

text \<open>The entry \<open>f"  - {desc} ({cmd})"\<close> appended for a missing command.\<close>

definition missing_entry :: "string \<times> string \<Rightarrow> pystr" where
  "missing_entry d = str ''  - '' @ str (snd d) @ str '' ('' @ str (fst d) @ str '')''"

text \<open>The loop over \<open>deps.items()\<close> that fills \<open>missing\<close>.\<close>

fun collect_missing :: "environment \<Rightarrow> (string \<times> string) list \<Rightarrow> pystr list" where
  "collect_missing e [] = []"
| "collect_missing e (d # ds) =
     (if \<not> which e (fst d) then missing_entry d # collect_missing e ds
      else collect_missing e ds)"

definition check_dependencies :: "environment \<Rightarrow> bool \<times> msg list" where
  "check_dependencies e =
     (let missing = collect_missing e deps
      in if missing \<noteq> []
         then (False, [MissingDepsHeader, Text (join_nl missing), InstallRgbdsHint])
         else if \<not> has_PIL e then (False, [MissingPillow, PillowHint])
         else if \<not> has_soundfile e then (False, [MissingSoundfile, SoundfileHint])
         else (True, []))"

section \<open>Extraction and build\<close>

text \<open>
  Paths are symbolic: \<open>Arg s\<close> is a path given on the command line, \<open>Under repo name\<close>
  is \<open>Path(repo).resolve() / name\<close>.
\<close>

datatype path = Arg string | Under string string

text \<open>
  The external commands, by their parameters: ffmpeg for the frames (input, fps, width,
  height), ffmpeg for the audio (input, output), and make (CONFIG, PULLDOWN, the optional
  SOUND; FRAMEEXT is always bmp).
\<close>

datatype command =
    FfmpegFrames path real int int
  | FfmpegAudio path path
  | Make int real "path option"

text \<open>
  What the run does not decide: whether the input exists, the environment, the assembly
  files, the return code of each external command, whether the Makefile exists, which
  paths exist when \<open>build_rom\<close> looks for the waveform, whether \<open>video.gb\<close> exists
  after make, and the number of frames found.
\<close>

record world =
  input_exists :: bool
  env :: environment
  asm :: asm_files
  returncode :: "command \<Rightarrow> int"
  makefile_exists :: bool
  exists_at_build :: "path \<Rightarrow> bool"
  built_rom_exists :: bool
  frame_count :: nat

datatype py_error = ZeroDivisionError

text \<open>
  Python's \<open>/\<close> on floats, which are idealised as reals (no rounding, no infinities):
  a zero divisor raises.
\<close>

definition py_truediv :: "real \<Rightarrow> real \<Rightarrow> py_error + real" where
  "py_truediv a b = (if b = 0 then Inl ZeroDivisionError else Inr (a / b))"

definition configs :: "int \<rightharpoonup> int \<times> int" where
  "configs = [0 \<mapsto> (160, 72), 1 \<mapsto> (160, 64), 2 \<mapsto> (160, 56)]"

text \<open>\<open>configs.get(config, (160, 72))\<close>.\<close>

definition resolution :: "int \<Rightarrow> int \<times> int" where
  "resolution config = (case configs config of Some r \<Rightarrow> r | None \<Rightarrow> (160, 72))"

text \<open>
  The stages return their verdict, the commands they ran and what they printed. Resetting
  the frames directory and copying the ROM leave no trace in the result.
\<close>

definition extract_frames ::
  "world \<Rightarrow> path \<Rightarrow> int \<Rightarrow> real \<Rightarrow> py_error + bool \<times> command list \<times> msg list" where
  "extract_frames w video_path config pulldown =
     (let (width, height) = resolution config
      in case py_truediv 30 pulldown of
           Inl e \<Rightarrow> Inl e
         | Inr fps \<Rightarrow>
             let cmd = FfmpegFrames video_path fps width height
             in if returncode w cmd \<noteq> 0
                then Inr (False, [cmd], [ExtractingFrames, FramesError])
                else Inr (True, [cmd],
                          [ExtractingFrames, FramesExtracted (frame_count w) width height fps]))"

definition extract_audio :: "world \<Rightarrow> path \<Rightarrow> path \<Rightarrow> bool \<times> command list \<times> msg list" where
  "extract_audio w video_path output_wav =
     (let cmd = FfmpegAudio video_path output_wav
      in if returncode w cmd \<noteq> 0
         then (False, [cmd], [ExtractingAudio, AudioFailedWarning])
         else (True, [cmd], [ExtractingAudio, AudioExtracted]))"

definition build_rom ::
  "world \<Rightarrow> path \<Rightarrow> int \<Rightarrow> real \<Rightarrow> path option \<Rightarrow> bool \<times> command list \<times> msg list" where
  "build_rom w output_rom config pulldown sound_path =
     (if \<not> makefile_exists w then (False, [], [BuildingRom, MakefileNotFound])
      else
        let sound = (case sound_path of
                       None \<Rightarrow> None
                     | Some p \<Rightarrow> if exists_at_build w p then Some p else None);
            make_cmd = Make config pulldown sound
        in if returncode w make_cmd \<noteq> 0
           then (False, [make_cmd], [BuildingRom, BuildError])
           else if \<not> built_rom_exists w
           then (False, [make_cmd], [BuildingRom, RomNotFound])
           else (True, [make_cmd], [BuildingRom, RomBuilt]))"

section \<open>The orchestrator\<close>

text \<open>
  The parsed command line (\<open>input_path\<close> and \<open>output_path\<close> are \<open>args.input\<close> and
  \<open>args.output\<close>). \<open>argparse\<close> rejects a \<open>--config\<close> outside its choices
  (exit status 2) and converts \<open>--fps-multiplier\<close> with \<open>float\<close>, checking nothing
  else.
\<close>

record args =
  input_path :: string
  output_path :: string
  repo :: string
  config :: int
  fps_multiplier :: real
  no_audio :: bool
  skip_patch :: bool

text \<open>
  How the process ends: \<open>Exit n\<close> is the exit status (0 when \<open>main\<close> returns),
  \<open>Uncaught e\<close> an exception raised outside the \<open>try\<close> block (a traceback, status 1).
\<close>

datatype ending = Exit nat | Uncaught py_error

record run =
  status :: ending
  spawned :: "command list"
  printed :: "msg list"
  files :: asm_files

text \<open>
  The \<open>try\<close> block of \<open>main\<close>, entered with what was printed so far and the assembly
  files as the patcher left them. \<open>sys.exit\<close> raises \<open>SystemExit\<close>, which
  \<open>except Exception\<close> does not catch; any other exception is caught there and ends the
  process with status 1.
\<close>

definition pipeline :: "args \<Rightarrow> world \<Rightarrow> msg list \<Rightarrow> asm_files \<Rightarrow> run" where
  "pipeline a w m1 fs =
     (let temp_wav = Under (repo a) ''sound.wav''
      in case extract_frames w (Arg (input_path a)) (config a) (fps_multiplier a) of
           Inl e \<Rightarrow>
             \<lparr>status = Exit 1, spawned = [], printed = m1 @ [ErrorCaught], files = fs\<rparr>
         | Inr (frames_ok, fc, fm) \<Rightarrow>
             if \<not> frames_ok
             then \<lparr>status = Exit 1, spawned = fc, printed = m1 @ fm, files = fs\<rparr>
             else
               let (audio_success, ac, am) =
                     (if \<not> no_audio a
                      then let (ok, ac, am) = extract_audio w (Arg (input_path a)) temp_wav
                           in (ok, ac, if \<not> ok then am @ [ContinuingWithoutAudio] else am)
                      else (False, [], []));
                   sound_file =
                     (if \<not> no_audio a \<and> audio_success then Some temp_wav else None);
                   (build_ok, bc, bm) =
                     build_rom w (Arg (output_path a)) (config a) (fps_multiplier a) sound_file;
                   m2 = m1 @ fm @ am @ [ConvertingNotes] @ bm
               in if \<not> build_ok
                  then \<lparr>status = Exit 1, spawned = fc @ ac @ bc, printed = m2, files = fs\<rparr>
                  else \<lparr>status = Exit 0, spawned = fc @ ac @ bc, printed = m2 @ [Success],
                        files = fs\<rparr>)"

text \<open>The patching step of \<open>main\<close>, with its warning when the patcher reports failure.\<close>

definition patch_step :: "args \<Rightarrow> asm_files \<Rightarrow> msg list \<times> asm_files" where
  "patch_step a fs0 =
     (if \<not> skip_patch a
      then let (patch_ok, pm, fs) = patch_rgbds_syntax fs0
           in (if \<not> patch_ok then pm @ [PatchFailedWarning] else pm, fs)
      else ([], fs0))"

definition main :: "args \<Rightarrow> world \<Rightarrow> run" where
  "main a w =
     (if config a \<notin> {0, 1, 2}
      then \<lparr>status = Exit 2, spawned = [], printed = [], files = asm w\<rparr>
      else if \<not> input_exists w
      then \<lparr>status = Exit 1, spawned = [], printed = [InputNotFound], files = asm w\<rparr>
      else
        case py_truediv 30 (fps_multiplier a) of
          Inl e \<Rightarrow> \<lparr>status = Uncaught e, spawned = [], printed = [], files = asm w\<rparr>
        | Inr target_fps \<Rightarrow>
            let (deps_ok, dm) = check_dependencies (env w);
                m0 = [Banner target_fps, CheckingDeps] @ dm
            in if \<not> deps_ok
               then \<lparr>status = Exit 1, spawned = [], printed = m0, files = asm w\<rparr>
               else
                 let (pm, fs) = patch_step a (asm w)
                 in pipeline a w (m0 @ [AllDepsFound] @ pm) fs)"

section \<open>Vocabulary of the statements\<close>

text \<open>The files as \<open>patch_rgbds_syntax\<close> leaves them.\<close>

definition files_after :: "asm_files \<Rightarrow> asm_files" where
  "files_after fs = snd (snd (patch_rgbds_syntax fs))"

text \<open>The lines of a stored file, as the patcher reads and splits them.\<close>

definition asm_lines :: "pystr \<Rightarrow> pystr list" where
  "asm_lines raw = split_nl (read_text raw)"

text \<open>
  The pattern in the words of the specification: an identifier is a letter or underscore
  followed by letters, digits and underscores; a declaration line is optional leading
  whitespace, an identifier, whitespace, \<open>EQU\<close>, whitespace and a value up to the end of
  the line.
\<close>

definition is_identifier :: "pystr \<Rightarrow> bool" where
  "is_identifier s \<longleftrightarrow>
     (case s of [] \<Rightarrow> False | c # cs \<Rightarrow> is_ident_start c \<and> list_all is_ident_char cs)"

definition is_whitespace :: "pystr \<Rightarrow> bool" where
  "is_whitespace s \<longleftrightarrow> list_all is_space s"

definition declaration_pattern :: "pystr \<Rightarrow> pystr \<Rightarrow> pystr \<Rightarrow> pystr \<Rightarrow> pystr \<Rightarrow> bool" where
  "declaration_pattern indent ident ws1 ws2 val \<longleftrightarrow>
     is_whitespace indent \<and> is_identifier ident \<and> ws1 \<noteq> [] \<and> is_whitespace ws1 \<and>
     ws2 \<noteq> [] \<and> is_whitespace ws2 \<and> NL \<notin> set val"

text \<open>
  A candidate line in the words of the specification: after trimming not a comment and
  not blank, without the qualifier and without a directive keyword.
\<close>

definition candidate :: "pystr \<Rightarrow> bool" where
  "candidate line \<longleftrightarrow>
     \<not> startswith (strip line) (str '';'') \<and> strip line \<noteq> [] \<and>
     \<not> contains line (str ''DEF '') \<and> \<not> contains line (str ''INCLUDE'') \<and>
     \<not> contains line (str ''SECTION'') \<and> \<not> contains line (str ''EXPORT'')"

text \<open>
  A world in which every command is found, both libraries import, every external command
  returns 0 and every file looked for exists; there is no assembly file.
\<close>

definition calm_world :: world where
  "calm_world =
     \<lparr>input_exists = True,
      env = \<lparr>which = (\<lambda>cmd. True), has_PIL = True, has_soundfile = True\<rparr>,
      asm = \<lparr>video_asm = None, backup = None\<rparr>,
      returncode = (\<lambda>cmd. 0),
      makefile_exists = True,
      exists_at_build = (\<lambda>p. True),
      built_rom_exists = True,
      frame_count = 0\<rparr>"

text \<open>The command line \<open>in.mp4 out.gb\<close>, every option at its default.\<close>

definition default_args :: args where
  "default_args =
     \<lparr>input_path = ''in.mp4'', output_path = ''out.gb'', repo = ''.'', config = 0,
      fps_multiplier = 1, no_audio = False, skip_patch = False\<rparr>"

text \<open>The calm world, except that ffmpeg fails on the audio.\<close>

definition silent_world :: world where
  "silent_world =
     calm_world\<lparr>returncode := (\<lambda>cmd. case cmd of FfmpegAudio i out \<Rightarrow> 1 | _ \<Rightarrow> 0)\<rparr>"

section \<open>Splitting, joining and reading\<close>

lemma split_nl_not_Nil [simp]: "split_nl s \<noteq> []"
  by (induction s) (auto simp: Let_def)

lemma split_nl_no_NL: "l \<in> set (split_nl s) \<Longrightarrow> NL \<notin> set l"
proof (induction s arbitrary: l)
  case Nil
  then show ?case by simp
next
  case (Cons c cs)
  show ?case
  proof (cases "c = NL")
    case True
    with Cons show ?thesis by auto
  next
    case False
    obtain h t where ht: "split_nl cs = h # t"
      by (cases "split_nl cs") auto
    with Cons False show ?thesis by (auto simp: Let_def)
  qed
qed

lemma join_split_nl [simp]: "join_nl (split_nl s) = s"
proof (induction s)
  case Nil
  show ?case by simp
next
  case (Cons c cs)
  obtain h t where ht: "split_nl cs = h # t"
    by (cases "split_nl cs") auto
  with Cons show ?case by (cases t) (auto simp: Let_def)
qed

lemma split_nl_append_no_NL:
  "NL \<notin> set l \<Longrightarrow> split_nl (l @ NL # s) = l # split_nl s"
  by (induction l) (auto simp: Let_def)

lemma split_nl_no_NL_id: "NL \<notin> set l \<Longrightarrow> split_nl l = [l]"
  by (induction l) (auto simp: Let_def)

lemma split_join_nl:
  "ls \<noteq> [] \<Longrightarrow> \<forall>l\<in>set ls. NL \<notin> set l \<Longrightarrow> split_nl (join_nl ls) = ls"
proof (induction ls rule: join_nl.induct)
  case 1
  then show ?case by simp
next
  case (2 l)
  then show ?case by (simp add: split_nl_no_NL_id)
next
  case (3 l v va)
  then show ?case by (simp add: split_nl_append_no_NL)
qed

lemma read_text_no_CR: "CR \<notin> set (read_text s)"
  by (induction s rule: read_text.induct) auto

lemma read_text_id: "CR \<notin> set s \<Longrightarrow> read_text s = s"
  by (induction s rule: read_text.induct) auto

lemma set_join_nl: "set (join_nl ls) \<subseteq> insert NL (\<Union>(set ` set ls))"
  by (induction ls rule: join_nl.induct) auto

lemma set_split_nl: "l \<in> set (split_nl s) \<Longrightarrow> set l \<subseteq> set s"
proof (induction s arbitrary: l)
  case Nil
  then show ?case by simp
next
  case (Cons c cs)
  obtain h t where ht: "split_nl cs = h # t"
    by (cases "split_nl cs") auto
  with Cons show ?case by (fastforce simp: Let_def split: if_splits)
qed

section \<open>The pattern and the line rule\<close>

lemma re_match_equ_parts:
  assumes "re_match_equ line = Some (i, s, r)"
  shows "\<exists>t. line = i @ s @ r @ t \<and> (t = [] \<or> t = [NL])"
proof -
  obtain c r1' where c: "dropWhile is_space line = c # r1'"
    using assms unfolding re_match_equ_def Let_def
    by (cases "dropWhile is_space line") (simp_all only: list.case option.distinct)
  define r2 where "r2 = dropWhile is_ident_char r1'"
  define r3 where "r3 = dropWhile is_space r2"
  define r4 where "r4 = drop 3 r3"
  define r5 where "r5 = dropWhile is_space r4"
  define r6 where "r6 = dropWhile (\<lambda>c. c \<noteq> NL) r5"
  from assms have m:
    "prefix (str ''EQU'') r3" "r6 = [] \<or> r6 = [NL]"
    "i = takeWhile is_space line" "s = c # takeWhile is_ident_char r1'"
    "r = takeWhile is_space r2 @ str ''EQU'' @ takeWhile is_space r4 @
         takeWhile (\<lambda>c. c \<noteq> NL) r5"
    unfolding re_match_equ_def Let_def c list.case r2_def r3_def r4_def r5_def r6_def
    by (auto split: if_splits)
  have l1: "line = i @ c # r1'"
    using c m(3) by (metis takeWhile_dropWhile_id)
  have l2: "r1' = takeWhile is_ident_char r1' @ r2" by (simp add: r2_def)
  have l3: "r2 = takeWhile is_space r2 @ r3" by (simp add: r3_def)
  have l4: "r3 = str ''EQU'' @ r4"
    using m(1) by (auto simp: prefix_def r4_def str_def)
  have l5: "r4 = takeWhile is_space r4 @ r5" by (simp add: r5_def)
  have l6: "r5 = takeWhile (\<lambda>c. c \<noteq> NL) r5 @ r6" by (simp add: r6_def)
  have "line = i @ s @ r @ r6"
    using l1 l2 l3 l4 l5 l6 m(4,5) by (metis append.assoc append_Cons)
  with m(2) show ?thesis by blast
qed

lemma re_match_equ_line:
  "re_match_equ line = Some (i, s, r) \<Longrightarrow> NL \<notin> set line \<Longrightarrow> line = i @ s @ r"
  using re_match_equ_parts[of line i s r] by auto

lemma re_match_equ_set:
  "re_match_equ line = Some (i, s, r) \<Longrightarrow> set (i @ s @ r) \<subseteq> set line"
  using re_match_equ_parts[of line i s r] by auto

lemma patch_line_idem: "patch_line (patch_line line) = patch_line line"
proof (cases "skip_line line")
  case True
  then show ?thesis by (simp add: patch_line_def)
next
  case False
  show ?thesis
  proof (cases "re_match_equ line")
    case None
    with False show ?thesis by (simp add: patch_line_def)
  next
    case (Some g)
    obtain i s r where g: "g = (i, s, r)" by (cases g)
    have "skip_line (i @ str ''DEF '' @ s @ r)"
      by (simp add: skip_line_def contains_def)
    with False Some g show ?thesis by (simp add: patch_line_def)
  qed
qed

lemma set_patch_line: "set (patch_line line) \<subseteq> set line \<union> set (str ''DEF '')"
proof (cases "re_match_equ line")
  case None
  then show ?thesis by (simp add: patch_line_def)
next
  case (Some g)
  obtain i s r where g: "g = (i, s, r)" by (cases g)
  with Some re_match_equ_set[of line i s r] show ?thesis
    by (auto simp: patch_line_def)
qed

lemma patch_line_no_NL: "NL \<notin> set line \<Longrightarrow> NL \<notin> set (patch_line line)"
  using set_patch_line[of line] by (auto simp: str_def)

lemma patch_line_no_CR: "CR \<notin> set line \<Longrightarrow> CR \<notin> set (patch_line line)"
  using set_patch_line[of line] by (auto simp: str_def)

section \<open>The patcher on files\<close>

lemma files_after_missing: "video_asm fs = None \<Longrightarrow> files_after fs = fs"
  by (simp add: files_after_def patch_rgbds_syntax_def)

lemma files_after_gate:
  "video_asm fs = Some raw \<Longrightarrow> already_patched (read_text raw) \<Longrightarrow> files_after fs = fs"
  by (simp add: files_after_def patch_rgbds_syntax_def)

lemma files_after_written:
  assumes "video_asm fs = Some raw" and "\<not> already_patched (read_text raw)"
  shows "files_after fs =
           \<lparr>video_asm = Some (join_nl (map patch_line (asm_lines raw))),
            backup = Some (case backup fs of None \<Rightarrow> raw | Some b \<Rightarrow> b)\<rparr>"
  using assms
  by (cases "backup fs")
     (simp_all add: files_after_def patch_rgbds_syntax_def asm_lines_def write_text_def)

lemma asm_lines_no_NL: "l \<in> set (asm_lines raw) \<Longrightarrow> NL \<notin> set l"
  by (simp add: asm_lines_def split_nl_no_NL)

lemma asm_lines_no_CR: "l \<in> set (asm_lines raw) \<Longrightarrow> CR \<notin> set l"
  using set_split_nl[of l "read_text raw"] read_text_no_CR[of raw]
  by (auto simp: asm_lines_def)

lemma asm_lines_written:
  "asm_lines (join_nl (map patch_line (asm_lines raw))) = map patch_line (asm_lines raw)"
proof -
  let ?ls = "map patch_line (asm_lines raw)"
  have ne: "?ls \<noteq> []" by (simp add: asm_lines_def)
  have nl: "\<forall>l\<in>set ?ls. NL \<notin> set l"
    using asm_lines_no_NL patch_line_no_NL by auto
  have cr: "\<forall>l\<in>set ?ls. CR \<notin> set l"
    using asm_lines_no_CR patch_line_no_CR by auto
  have "CR \<notin> set (join_nl ?ls)"
    using set_join_nl[of ?ls] cr by auto
  then have "read_text (join_nl ?ls) = join_nl ?ls" by (rule read_text_id)
  then show ?thesis
    using split_join_nl[OF ne nl] by (simp add: asm_lines_def)
qed

section \<open>The matcher accepts the pattern\<close>

lemma not_space_ident: "is_ident_char c \<Longrightarrow> \<not> is_space c"
  by (auto simp: is_ident_char_def is_ident_start_def is_space_def)

lemma takeWhile_run:
  "list_all P xs \<Longrightarrow> (ys = [] \<or> \<not> P (hd ys)) \<Longrightarrow> takeWhile P (xs @ ys) = xs"
  by (cases ys) (auto simp: list_all_iff)

lemma dropWhile_run:
  "list_all P xs \<Longrightarrow> (ys = [] \<or> \<not> P (hd ys)) \<Longrightarrow> dropWhile P (xs @ ys) = ys"
  by (cases ys) (auto simp: list_all_iff)

lemma re_match_equ_pattern:
  assumes ind: "is_whitespace indent" and id: "is_identifier ident"
    and w1: "ws1 \<noteq> []" "is_whitespace ws1" and w2: "ws2 \<noteq> []" "is_whitespace ws2"
    and v: "NL \<notin> set val"
  shows "re_match_equ (indent @ ident @ ws1 @ str ''EQU'' @ ws2 @ val) =
           Some (indent, ident, ws1 @ str ''EQU'' @ ws2 @ val)"
proof -
  from id obtain c cs where c: "ident = c # cs" "is_ident_start c" "list_all is_ident_char cs"
    by (cases ident) (auto simp: is_identifier_def)
  let ?r4 = "ws2 @ val"
  let ?r3 = "str ''EQU'' @ ?r4"
  let ?r2 = "ws1 @ ?r3"
  let ?line = "indent @ ident @ ?r2"
  have nsc: "\<not> is_space c"
    using c(2) by (simp add: not_space_ident is_ident_char_def)
  have t1: "takeWhile is_space ?line = indent" and d1: "dropWhile is_space ?line = c # cs @ ?r2"
    using ind nsc c(1)
    by (simp_all add: is_whitespace_def takeWhile_run dropWhile_run)
  obtain s1 ws1' where s1: "ws1 = s1 # ws1'" "is_space s1"
    using w1 by (cases ws1) (auto simp: is_whitespace_def)
  have nid: "\<not> is_ident_char s1"
    using s1(2) not_space_ident by blast
  have t2: "takeWhile is_ident_char (cs @ ?r2) = cs"
    and d2: "dropWhile is_ident_char (cs @ ?r2) = ?r2"
    using c(3) nid s1(1) by (simp_all add: takeWhile_run dropWhile_run)
  have nE: "\<not> is_space (hd ?r3)"
    by (simp add: str_def is_space_def)
  have r3ne: "?r3 \<noteq> []" by (simp add: str_def)
  have ws1s: "list_all is_space ws1"
    using w1(2) by (simp add: is_whitespace_def)
  have t3: "takeWhile is_space ?r2 = ws1"
    by (rule takeWhile_run[OF ws1s disjI2[OF nE]])
  have d3: "dropWhile is_space ?r2 = ?r3"
    by (rule dropWhile_run[OF ws1s disjI2[OF nE]])
  have p: "prefix (str ''EQU'') ?r3" by simp
  have d4: "drop 3 ?r3 = ?r4" by (simp add: str_def)
  define sp where "sp = takeWhile is_space val"
  define v' where "v' = dropWhile is_space val"
  have val: "val = sp @ v'" by (simp add: sp_def v'_def)
  have t5: "takeWhile is_space ?r4 = ws2 @ sp"
    using w2(2) by (simp add: takeWhile_append is_whitespace_def list_all_iff sp_def)
  have d5: "dropWhile is_space ?r4 = v'"
    using w2(2) by (simp add: dropWhile_append is_whitespace_def list_all_iff v'_def)
  have "NL \<notin> set v'" using v val by (metis Un_iff set_append)
  then have t6: "takeWhile (\<lambda>c. c \<noteq> NL) v' = v'" and d6: "dropWhile (\<lambda>c. c \<noteq> NL) v' = []"
    by auto
  have ne5: "ws2 @ sp \<noteq> []" using w2(1) by simp
  show ?thesis
    unfolding re_match_equ_def Let_def t1 d1 list.case t2 d2 t3 d3 d4 t5 d5 t6 d6
    using c(1,2) w1(1) p ne5 val by simp
qed

lemma candidate_not_skip: "candidate line \<longleftrightarrow> \<not> skip_line line"
  by (auto simp: candidate_def skip_line_def)

lemma patch_line_pattern:
  assumes "declaration_pattern indent ident ws1 ws2 val"
    and "candidate (indent @ ident @ ws1 @ str ''EQU'' @ ws2 @ val)"
  shows "patch_line (indent @ ident @ ws1 @ str ''EQU'' @ ws2 @ val) =
           indent @ str ''DEF '' @ ident @ ws1 @ str ''EQU'' @ ws2 @ val"
proof -
  have "re_match_equ (indent @ ident @ ws1 @ str ''EQU'' @ ws2 @ val) =
          Some (indent, ident, ws1 @ str ''EQU'' @ ws2 @ val)"
    using assms(1) by (intro re_match_equ_pattern) (simp_all add: declaration_pattern_def)
  with assms(2) show ?thesis
    by (simp add: patch_line_def candidate_not_skip)
qed

lemma files_after_lines:
  assumes "video_asm fs = Some raw" and "\<not> already_patched (read_text raw)"
  shows "\<exists>raw'. video_asm (files_after fs) = Some raw' \<and>
           asm_lines raw' = map patch_line (asm_lines raw)"
  using files_after_written[OF assms] by (simp add: asm_lines_written)

lemma patch_line_skip: "skip_line line \<Longrightarrow> patch_line line = line"
  by (simp add: patch_line_def)

lemma files_after_lines_all:
  assumes "video_asm fs = Some raw"
  shows "\<exists>raw'. video_asm (files_after fs) = Some raw' \<and>
           (asm_lines raw' = asm_lines raw \<or> asm_lines raw' = map patch_line (asm_lines raw))"
proof (cases "already_patched (read_text raw)")
  case True
  with assms show ?thesis by (simp add: files_after_gate)
next
  case False
  with assms files_after_lines show ?thesis by blast
qed

section \<open>The prober's listing\<close>

lemma collect_missing_filter:
  "collect_missing e ds = map missing_entry (filter (\<lambda>d. \<not> which e (fst d)) ds)"
  by (induction ds) auto

lemma missing_entry_no_NL: "d \<in> set deps \<Longrightarrow> NL \<notin> set (missing_entry d)"
  by (auto simp: deps_def missing_entry_def str_def)

lemma check_dependencies_missing:
  assumes "list_ex (\<lambda>d. \<not> which e (fst d)) deps"
  shows "check_dependencies e =
           (False, [MissingDepsHeader,
                    Text (join_nl (map missing_entry (filter (\<lambda>d. \<not> which e (fst d)) deps))),
                    InstallRgbdsHint])"
proof -
  from assms have "filter (\<lambda>d. \<not> which e (fst d)) deps \<noteq> []"
    by (simp add: list_ex_iff filter_empty_conv)
  then show ?thesis
    by (simp add: check_dependencies_def collect_missing_filter)
qed

lemma check_dependencies_found:
  assumes "list_all (\<lambda>d. which e (fst d)) deps"
  shows "check_dependencies e =
           (if \<not> has_PIL e then (False, [MissingPillow, PillowHint])
            else if \<not> has_soundfile e then (False, [MissingSoundfile, SoundfileHint])
            else (True, []))"
proof -
  from assms have "filter (\<lambda>d. \<not> which e (fst d)) deps = []"
    by (simp add: list_all_iff filter_empty_conv)
  then show ?thesis
    by (simp add: check_dependencies_def collect_missing_filter)
qed

section \<open>Frame extraction\<close>

lemma extract_frames_command:
  assumes "p \<noteq> 0"
  shows "\<exists>ok msgs. extract_frames w v c p =
           Inr (ok, [FfmpegFrames v (30 / p) (fst (resolution c)) (snd (resolution c))], msgs)"
  using assms
  by (cases "resolution c") (auto simp: extract_frames_def py_truediv_def Let_def)

lemma extract_frames_zero: "extract_frames w v c 0 = Inl ZeroDivisionError"
  by (cases "resolution c") (simp add: extract_frames_def py_truediv_def)

section \<open>The orchestrator\<close>

lemma patch_rgbds_syntax_ok: "fst (patch_rgbds_syntax fs)"
  by (cases "video_asm fs"; cases "backup fs")
     (simp_all add: patch_rgbds_syntax_def Let_def)

lemma patch_step_quiet: "PatchFailedWarning \<notin> set (fst (patch_step a fs))"
proof (cases "skip_patch a")
  case True
  then show ?thesis by (simp add: patch_step_def)
next
  case False
  obtain ok pm fs' where p: "patch_rgbds_syntax fs = (ok, pm, fs')"
    by (cases "patch_rgbds_syntax fs") auto
  with patch_rgbds_syntax_ok[of fs] have ok by simp
  have "PatchFailedWarning \<notin> set pm"
    using p
    by (cases "video_asm fs"; cases "backup fs")
       (auto simp: patch_rgbds_syntax_def Let_def split: if_splits)
  with False p \<open>ok\<close> show ?thesis by (simp add: patch_step_def)
qed

lemma check_dependencies_quiet: "PatchFailedWarning \<notin> set (snd (check_dependencies e))"
  by (simp add: check_dependencies_def Let_def)

lemma extract_frames_quiet:
  "extract_frames w v c p = Inr (ok, fc, fm) \<Longrightarrow> PatchFailedWarning \<notin> set fm"
  by (cases "resolution c")
     (auto simp: extract_frames_def py_truediv_def Let_def split: if_splits)

lemma extract_audio_quiet:
  "extract_audio w v out = (ok, ac, am) \<Longrightarrow> PatchFailedWarning \<notin> set am"
  by (auto simp: extract_audio_def Let_def split: if_splits)

lemma build_rom_quiet:
  "build_rom w out c p sp = (ok, bc, bm) \<Longrightarrow> PatchFailedWarning \<notin> set bm"
  by (auto simp: build_rom_def Let_def split: if_splits)

lemma pipeline_quiet:
  assumes "PatchFailedWarning \<notin> set m1"
  shows "PatchFailedWarning \<notin> set (printed (pipeline a w m1 fs))"
proof (cases "extract_frames w (Arg (input_path a)) (config a) (fps_multiplier a)")
  case (Inl e)
  with assms show ?thesis by (simp add: pipeline_def)
next
  case (Inr r)
  obtain ok fc fm where r: "r = (ok, fc, fm)" by (cases r)
  have fm: "PatchFailedWarning \<notin> set fm"
    using Inr r by (auto dest: extract_frames_quiet)
  obtain aok ac am where au:
    "extract_audio w (Arg (input_path a)) (Under (repo a) ''sound.wav'') = (aok, ac, am)"
    by (cases "extract_audio w (Arg (input_path a)) (Under (repo a) ''sound.wav'')")
  have am: "PatchFailedWarning \<notin> set am"
    using au by (rule extract_audio_quiet)
  show ?thesis
    using assms Inr r fm au am
    by (auto simp: pipeline_def Let_def split: prod.splits dest: build_rom_quiet)
qed

lemma extract_frames_no_make:
  "extract_frames w v c p = Inr (ok, fc, fm) \<Longrightarrow> Make c' p' s \<notin> set fc"
  by (cases "resolution c")
     (auto simp: extract_frames_def py_truediv_def Let_def split: if_splits)

lemma extract_audio_no_make:
  "extract_audio w v out = (ok, ac, am) \<Longrightarrow> Make c' p' s \<notin> set ac"
  by (auto simp: extract_audio_def Let_def split: if_splits)

lemma build_rom_sound:
  "Make c' p' (Some s) \<in> set (fst (snd (build_rom w out c p sp))) \<Longrightarrow>
   sp = Some s \<and> exists_at_build w s"
  by (cases sp) (auto simp: build_rom_def Let_def split: if_splits)

lemma pipeline_sound:
  assumes "Make c p (Some s) \<in> set (spawned (pipeline a w m1 fs))"
  shows "\<not> no_audio a \<and> exists_at_build w s"
proof (cases "extract_frames w (Arg (input_path a)) (config a) (fps_multiplier a)")
  case (Inl e)
  with assms show ?thesis by (simp add: pipeline_def)
next
  case (Inr r)
  obtain ok fc fm where r: "r = (ok, fc, fm)" by (cases r)
  have fc: "Make c p (Some s) \<notin> set fc"
    using Inr r by (auto dest: extract_frames_no_make)
  obtain aok ac am where au:
    "extract_audio w (Arg (input_path a)) (Under (repo a) ''sound.wav'') = (aok, ac, am)"
    by (cases "extract_audio w (Arg (input_path a)) (Under (repo a) ''sound.wav'')")
  have ac: "Make c p (Some s) \<notin> set ac"
    using au by (rule extract_audio_no_make)
  define sound_file where
    "sound_file = (if \<not> no_audio a \<and> aok then Some (Under (repo a) ''sound.wav'') else None)"
  obtain bok bc bm where b:
    "build_rom w (Arg (output_path a)) (config a) (fps_multiplier a) sound_file = (bok, bc, bm)"
    by (cases "build_rom w (Arg (output_path a)) (config a) (fps_multiplier a) sound_file")
  have sp: "spawned (pipeline a w m1 fs) = (if ok then fc @ (if no_audio a then [] else ac) @ bc else fc)"
    using Inr r au b
    by (auto simp: pipeline_def Let_def sound_file_def split: prod.splits)
  with assms fc ac have "Make c p (Some s) \<in> set bc"
    by (auto split: if_splits)
  with b build_rom_sound[of c p s w "Arg (output_path a)" "config a" "fps_multiplier a" sound_file]
  have "sound_file = Some s \<and> exists_at_build w s" by simp
  then show ?thesis by (auto simp: sound_file_def split: if_splits)
qed

lemma main_sound:
  assumes "Make c p (Some s) \<in> set (spawned (main a w))"
  shows "\<not> no_audio a \<and> exists_at_build w s"
proof -
  obtain pm fs where ps: "patch_step a (asm w) = (pm, fs)"
    by (cases "patch_step a (asm w)")
  obtain dok dm where d: "check_dependencies (env w) = (dok, dm)"
    by (cases "check_dependencies (env w)")
  from assms ps d obtain m1 where "Make c p (Some s) \<in> set (spawned (pipeline a w m1 fs))"
    by (auto simp: main_def py_truediv_def Let_def split: if_splits)
  then show ?thesis by (rule pipeline_sound)
qed

lemma main_degrades:
  assumes c: "config a \<in> {0, 1, 2}" and i: "input_exists w"
    and d: "fst (check_dependencies (env w))"
    and f: "extract_frames w (Arg (input_path a)) (config a) (fps_multiplier a) = Inr (True, fc, fm)"
    and n: "\<not> no_audio a"
    and au: "\<not> fst (extract_audio w (Arg (input_path a)) (Under (repo a) ''sound.wav''))"
    and b: "fst (build_rom w (Arg (output_path a)) (config a) (fps_multiplier a) None)"
  shows "status (main a w) = Exit 0 \<and>
         spawned (main a w) =
           fc @ [FfmpegAudio (Arg (input_path a)) (Under (repo a) ''sound.wav''),
                 Make (config a) (fps_multiplier a) None] \<and>
         ContinuingWithoutAudio \<in> set (printed (main a w)) \<and>
         RomBuilt \<in> set (printed (main a w)) \<and>
         last (printed (main a w)) = Success"
proof -
  have p0: "fps_multiplier a \<noteq> 0"
    using f extract_frames_zero[of w "Arg (input_path a)" "config a"] by auto
  obtain pm fs where ps: "patch_step a (asm w) = (pm, fs)"
    by (cases "patch_step a (asm w)")
  obtain dm where dd: "check_dependencies (env w) = (True, dm)"
    using d by (cases "check_dependencies (env w)") auto
  define m1 where "m1 = [Banner (30 / fps_multiplier a), CheckingDeps] @ dm @ [AllDepsFound] @ pm"
  have m: "main a w = pipeline a w m1 fs"
    using c i p0 ps dd by (simp add: main_def py_truediv_def m1_def)
  let ?wav = "Under (repo a) ''sound.wav''"
  have ea: "extract_audio w (Arg (input_path a)) ?wav =
      (False, [FfmpegAudio (Arg (input_path a)) ?wav], [ExtractingAudio, AudioFailedWarning])"
    using au by (auto simp: extract_audio_def Let_def split: if_splits)
  have br: "build_rom w (Arg (output_path a)) (config a) (fps_multiplier a) None =
      (True, [Make (config a) (fps_multiplier a) None], [BuildingRom, RomBuilt])"
    using b by (auto simp: build_rom_def Let_def split: if_splits)
  have "pipeline a w m1 fs =
      \<lparr>status = Exit 0,
       spawned = fc @ [FfmpegAudio (Arg (input_path a)) ?wav] @ [Make (config a) (fps_multiplier a) None],
       printed = (m1 @ fm @ ([ExtractingAudio, AudioFailedWarning] @ [ContinuingWithoutAudio]) @
                  [ConvertingNotes] @ [BuildingRom, RomBuilt]) @ [Success],
       files = fs\<rparr>"
    using f n ea br by (simp add: pipeline_def)
  with m show ?thesis by simp
qed

section \<open>The claims\<close>

text \<open>
  C1. Applying \<open>patch_rgbds_syntax\<close> twice leaves the files (the assembly source and its
  backup) exactly as applying it once does: the second application changes nothing,
  whether the file is missing, is taken as already patched, or was patched by the first
  application.
\<close>

theorem patch_rgbds_syntax_idempotent:
  "files_after (files_after fs) = files_after fs"
proof (cases "video_asm fs")
  case None
  then show ?thesis by (simp add: files_after_missing)
next
  case (Some raw)
  show ?thesis
  proof (cases "already_patched (read_text raw)")
    case True
    with Some show ?thesis by (simp add: files_after_gate)
  next
    case False
    let ?new = "join_nl (map patch_line (asm_lines raw))"
    let ?fs' = "files_after fs"
    have fs': "?fs' = \<lparr>video_asm = Some ?new,
                       backup = Some (case backup fs of None \<Rightarrow> raw | Some b \<Rightarrow> b)\<rparr>"
      using Some False by (rule files_after_written)
    then have v: "video_asm ?fs' = Some ?new" by simp
    show ?thesis
    proof (cases "already_patched (read_text ?new)")
      case True
      with v show ?thesis by (rule files_after_gate)
    next
      case False
      have "map patch_line (asm_lines ?new) = map patch_line (asm_lines raw)"
        by (simp add: asm_lines_written patch_line_idem)
      with files_after_written[OF v False] fs' show ?thesis by simp
    qed
  qed
qed

theorem patch_rgbds_syntax_idempotent_witness:
  "files_after \<lparr>video_asm = Some (str ''X EQU 1''), backup = None\<rparr> =
     \<lparr>video_asm = Some (str ''DEF X EQU 1''), backup = Some (str ''X EQU 1'')\<rparr> \<and>
   files_after (files_after \<lparr>video_asm = Some (str ''X EQU 1''), backup = None\<rparr>) =
     files_after \<lparr>video_asm = Some (str ''X EQU 1''), backup = None\<rparr>"
proof
  show "files_after \<lparr>video_asm = Some (str ''X EQU 1''), backup = None\<rparr> =
     \<lparr>video_asm = Some (str ''DEF X EQU 1''), backup = Some (str ''X EQU 1'')\<rparr>"
    by (simp add: files_after_def patch_rgbds_syntax_def already_patched_def contains_def
        str_def sublist_code(3) write_text_def patch_line_def skip_line_def startswith_def
        strip_def is_space_def re_match_equ_def is_ident_start_def is_ident_char_def Let_def)
next
  show "files_after (files_after \<lparr>video_asm = Some (str ''X EQU 1''), backup = None\<rparr>) =
     files_after \<lparr>video_asm = Some (str ''X EQU 1''), backup = None\<rparr>"
    by (rule patch_rgbds_syntax_idempotent)
qed

text \<open>
  C2. A candidate line (after trimming not a comment, not blank, without the qualifier or a
  directive keyword) that matches the pattern (optional leading whitespace, identifier,
  whitespace, \<open>EQU\<close>, whitespace, rest of the line) is rewritten by the line rule of
  the patcher with \<open>DEF \<close> inserted immediately before the identifier, the leading
  whitespace and the remainder kept verbatim; the line \<open>  MYCONST EQU 5\<close> becomes
  \<open>  DEF MYCONST EQU 5\<close>; and when the patcher rewrites a file (the file exists and is
  not taken as already patched), such a line of the file is that rewritten line in the
  file written, at the same position.
\<close>

theorem declaration_line_qualified:
  "(\<forall>indent ident ws1 ws2 val.
      declaration_pattern indent ident ws1 ws2 val \<and>
      candidate (indent @ ident @ ws1 @ str ''EQU'' @ ws2 @ val) \<longrightarrow>
      patch_line (indent @ ident @ ws1 @ str ''EQU'' @ ws2 @ val) =
        indent @ str ''DEF '' @ ident @ ws1 @ str ''EQU'' @ ws2 @ val) \<and>
   patch_line (str ''  MYCONST EQU 5'') = str ''  DEF MYCONST EQU 5'' \<and>
   (\<forall>fs raw i indent ident ws1 ws2 val.
      video_asm fs = Some raw \<and> \<not> already_patched (read_text raw) \<and>
      i < length (asm_lines raw) \<and>
      asm_lines raw ! i = indent @ ident @ ws1 @ str ''EQU'' @ ws2 @ val \<and>
      declaration_pattern indent ident ws1 ws2 val \<and>
      candidate (indent @ ident @ ws1 @ str ''EQU'' @ ws2 @ val) \<longrightarrow>
      (\<exists>raw'. video_asm (files_after fs) = Some raw' \<and>
         length (asm_lines raw') = length (asm_lines raw) \<and>
         asm_lines raw' ! i = indent @ str ''DEF '' @ ident @ ws1 @ str ''EQU'' @ ws2 @ val))"
proof (intro conjI allI impI)
  fix indent ident ws1 ws2 val
  assume "declaration_pattern indent ident ws1 ws2 val \<and>
      candidate (indent @ ident @ ws1 @ str ''EQU'' @ ws2 @ val)"
  then show "patch_line (indent @ ident @ ws1 @ str ''EQU'' @ ws2 @ val) =
        indent @ str ''DEF '' @ ident @ ws1 @ str ''EQU'' @ ws2 @ val"
    by (simp add: patch_line_pattern)
next
  have p: "declaration_pattern (str ''  '') (str ''MYCONST'') (str '' '') (str '' '') (str ''5'')"
    by (simp add: declaration_pattern_def is_whitespace_def is_identifier_def str_def
        is_space_def is_ident_start_def is_ident_char_def)
  have c: "candidate (str ''  '' @ str ''MYCONST'' @ str '' '' @ str ''EQU'' @ str '' '' @ str ''5'')"
    by (simp add: candidate_def strip_def startswith_def contains_def str_def is_space_def
        sublist_code(3))
  from patch_line_pattern[OF p c] show "patch_line (str ''  MYCONST EQU 5'') = str ''  DEF MYCONST EQU 5''"
    by (simp add: str_def)
next
  fix fs :: asm_files and raw :: pystr and i :: nat and indent ident ws1 ws2 val :: pystr
  assume a: "video_asm fs = Some raw \<and> \<not> already_patched (read_text raw) \<and>
      i < length (asm_lines raw) \<and>
      asm_lines raw ! i = indent @ ident @ ws1 @ str ''EQU'' @ ws2 @ val \<and>
      declaration_pattern indent ident ws1 ws2 val \<and>
      candidate (indent @ ident @ ws1 @ str ''EQU'' @ ws2 @ val)"
  then obtain raw' where r: "video_asm (files_after fs) = Some raw'"
      "asm_lines raw' = map patch_line (asm_lines raw)"
    using files_after_lines by blast
  from a have "patch_line (asm_lines raw ! i) =
      indent @ str ''DEF '' @ ident @ ws1 @ str ''EQU'' @ ws2 @ val"
    by (simp add: patch_line_pattern)
  with a r show "\<exists>raw'. video_asm (files_after fs) = Some raw' \<and>
         length (asm_lines raw') = length (asm_lines raw) \<and>
         asm_lines raw' ! i = indent @ str ''DEF '' @ ident @ ws1 @ str ''EQU'' @ ws2 @ val"
    by simp
qed

theorem declaration_line_qualified_witness:
  "declaration_pattern (str ''  '') (str ''MYCONST'') (str '' '') (str '' '') (str ''5'') \<and>
   candidate (str ''  '' @ str ''MYCONST'' @ str '' '' @ str ''EQU'' @ str '' '' @ str ''5'') \<and>
   patch_line (str ''  '' @ str ''MYCONST'' @ str '' '' @ str ''EQU'' @ str '' '' @ str ''5'') =
     str ''  '' @ str ''DEF '' @ str ''MYCONST'' @ str '' '' @ str ''EQU'' @ str '' '' @ str ''5'' \<and>
   video_asm \<lparr>video_asm = Some (str ''; consts'' @ NL # str ''  MYCONST EQU 5''), backup = None\<rparr> =
     Some (str ''; consts'' @ NL # str ''  MYCONST EQU 5'') \<and>
   \<not> already_patched (read_text (str ''; consts'' @ NL # str ''  MYCONST EQU 5'')) \<and>
   1 < length (asm_lines (str ''; consts'' @ NL # str ''  MYCONST EQU 5'')) \<and>
   asm_lines (str ''; consts'' @ NL # str ''  MYCONST EQU 5'') ! 1 =
     str ''  '' @ str ''MYCONST'' @ str '' '' @ str ''EQU'' @ str '' '' @ str ''5'' \<and>
   (\<exists>raw'. video_asm (files_after
        \<lparr>video_asm = Some (str ''; consts'' @ NL # str ''  MYCONST EQU 5''), backup = None\<rparr>) =
        Some raw' \<and>
      length (asm_lines raw') = length (asm_lines (str ''; consts'' @ NL # str ''  MYCONST EQU 5'')) \<and>
      asm_lines raw' ! 1 =
        str ''  '' @ str ''DEF '' @ str ''MYCONST'' @ str '' '' @ str ''EQU'' @ str '' '' @ str ''5'')"
proof -
  let ?raw = "str ''; consts'' @ NL # str ''  MYCONST EQU 5''"
  let ?fs = "\<lparr>video_asm = Some ?raw, backup = None\<rparr>"
  have p: "declaration_pattern (str ''  '') (str ''MYCONST'') (str '' '') (str '' '') (str ''5'')"
    by (simp add: declaration_pattern_def is_whitespace_def is_identifier_def str_def
        is_space_def is_ident_start_def is_ident_char_def)
  have c: "candidate (str ''  '' @ str ''MYCONST'' @ str '' '' @ str ''EQU'' @ str '' '' @ str ''5'')"
    by (simp add: candidate_def strip_def startswith_def contains_def str_def is_space_def
        sublist_code(3))
  have f: "video_asm ?fs = Some ?raw" by simp
  have g: "\<not> already_patched (read_text ?raw)"
    by (simp add: already_patched_def contains_def str_def sublist_code(3))
  have l: "asm_lines ?raw = [str ''; consts'', str ''  MYCONST EQU 5'']"
    by (simp add: asm_lines_def str_def)
  have n: "1 < length (asm_lines ?raw)" unfolding l by simp
  have e: "asm_lines ?raw ! 1 =
      str ''  '' @ str ''MYCONST'' @ str '' '' @ str ''EQU'' @ str '' '' @ str ''5''"
    unfolding l by (simp add: str_def)
  note on_line = declaration_line_qualified[THEN conjunct1, rule_format, OF conjI[OF p c]]
  note on_file = declaration_line_qualified[THEN conjunct2, THEN conjunct2, rule_format,
      of ?fs ?raw 1, OF conjI[OF f conjI[OF g conjI[OF n conjI[OF e conjI[OF p c]]]]]]
  show ?thesis
    apply (intro conjI)
           apply (rule p)
          apply (rule c)
         apply (rule on_line)
        apply (rule f)
       apply (rule g)
      apply (rule n)
     apply (rule e)
    apply (rule on_file)
    done
qed

text \<open>
  C3. A line that after trimming starts with \<open>;\<close>, or contains \<open>INCLUDE\<close>,
  \<open>SECTION\<close> or \<open>EXPORT\<close>, or already contains \<open>DEF \<close>, or is blank, is passed
  through unchanged by the line rule; and whatever the patcher does to an existing file
  (rewrite it or leave it as already patched), such a line of the file is the same line,
  at the same position, in the file afterwards.
\<close>

theorem skipped_line_unchanged:
  "(\<forall>line.
      startswith (strip line) (str '';'') \<or> contains line (str ''INCLUDE'') \<or>
      contains line (str ''SECTION'') \<or> contains line (str ''EXPORT'') \<or>
      contains line (str ''DEF '') \<or> strip line = [] \<longrightarrow>
      patch_line line = line) \<and>
   (\<forall>fs raw i line.
      video_asm fs = Some raw \<and> i < length (asm_lines raw) \<and> asm_lines raw ! i = line \<and>
      (startswith (strip line) (str '';'') \<or> contains line (str ''INCLUDE'') \<or>
       contains line (str ''SECTION'') \<or> contains line (str ''EXPORT'') \<or>
       contains line (str ''DEF '') \<or> strip line = []) \<longrightarrow>
      (\<exists>raw'. video_asm (files_after fs) = Some raw' \<and>
         length (asm_lines raw') = length (asm_lines raw) \<and> asm_lines raw' ! i = line))"
proof (intro conjI allI impI)
  fix line :: pystr
  assume "startswith (strip line) (str '';'') \<or> contains line (str ''INCLUDE'') \<or>
      contains line (str ''SECTION'') \<or> contains line (str ''EXPORT'') \<or>
      contains line (str ''DEF '') \<or> strip line = []"
  then have "skip_line line" by (auto simp: skip_line_def)
  then show "patch_line line = line" by (rule patch_line_skip)
next
  fix fs :: asm_files and raw :: pystr and i :: nat and line :: pystr
  assume a: "video_asm fs = Some raw \<and> i < length (asm_lines raw) \<and> asm_lines raw ! i = line \<and>
      (startswith (strip line) (str '';'') \<or> contains line (str ''INCLUDE'') \<or>
       contains line (str ''SECTION'') \<or> contains line (str ''EXPORT'') \<or>
       contains line (str ''DEF '') \<or> strip line = [])"
  then have "skip_line line" by (auto simp: skip_line_def)
  then have p: "patch_line (asm_lines raw ! i) = line"
    using a by (simp add: patch_line_skip)
  from a obtain raw' where r: "video_asm (files_after fs) = Some raw'"
    "asm_lines raw' = asm_lines raw \<or> asm_lines raw' = map patch_line (asm_lines raw)"
    using files_after_lines_all by blast
  from r(2) a p have "length (asm_lines raw') = length (asm_lines raw) \<and> asm_lines raw' ! i = line"
    by auto
  with r(1) show "\<exists>raw'. video_asm (files_after fs) = Some raw' \<and>
         length (asm_lines raw') = length (asm_lines raw) \<and> asm_lines raw' ! i = line"
    by blast
qed

theorem skipped_line_unchanged_witness:
  "video_asm \<lparr>video_asm = Some (str ''  INCLUDE hw.inc'' @ NL # str ''X EQU 1''), backup = None\<rparr> =
     Some (str ''  INCLUDE hw.inc'' @ NL # str ''X EQU 1'') \<and>
   0 < length (asm_lines (str ''  INCLUDE hw.inc'' @ NL # str ''X EQU 1'')) \<and>
   asm_lines (str ''  INCLUDE hw.inc'' @ NL # str ''X EQU 1'') ! 0 = str ''  INCLUDE hw.inc'' \<and>
   contains (str ''  INCLUDE hw.inc'') (str ''INCLUDE'') \<and>
   patch_line (str ''  INCLUDE hw.inc'') = str ''  INCLUDE hw.inc'' \<and>
   (\<exists>raw'. video_asm (files_after
        \<lparr>video_asm = Some (str ''  INCLUDE hw.inc'' @ NL # str ''X EQU 1''), backup = None\<rparr>) =
        Some raw' \<and>
      length (asm_lines raw') = length (asm_lines (str ''  INCLUDE hw.inc'' @ NL # str ''X EQU 1'')) \<and>
      asm_lines raw' ! 0 = str ''  INCLUDE hw.inc'')"
proof -
  let ?raw = "str ''  INCLUDE hw.inc'' @ NL # str ''X EQU 1''"
  let ?fs = "\<lparr>video_asm = Some ?raw, backup = None\<rparr>"
  let ?line = "str ''  INCLUDE hw.inc''"
  have f: "video_asm ?fs = Some ?raw" by simp
  have l: "asm_lines ?raw = [?line, str ''X EQU 1'']"
    by (simp add: asm_lines_def str_def)
  have n: "0 < length (asm_lines ?raw)" unfolding l by simp
  have e: "asm_lines ?raw ! 0 = ?line" unfolding l by simp
  have c: "contains ?line (str ''INCLUDE'')"
    by (simp add: contains_def str_def sublist_code(3))
  have d: "startswith (strip ?line) (str '';'') \<or> contains ?line (str ''INCLUDE'') \<or>
      contains ?line (str ''SECTION'') \<or> contains ?line (str ''EXPORT'') \<or>
      contains ?line (str ''DEF '') \<or> strip ?line = []"
    using c by blast
  note on_line = skipped_line_unchanged[THEN conjunct1, rule_format, OF d]
  note on_file = skipped_line_unchanged[THEN conjunct2, rule_format, of ?fs ?raw 0 ?line,
      OF conjI[OF f conjI[OF n conjI[OF e d]]]]
  show ?thesis
    apply (intro conjI)
         apply (rule f)
        apply (rule n)
       apply (rule e)
      apply (rule c)
     apply (rule on_line)
    apply (rule on_file)
    done
qed

text \<open>
  C4, as stated, fails: the file \<open>BAR EQU 2\<close>, \<open>DEF FOO EQU 1\<close> holds the qualified
  form of a declaration (after its first, unqualified \<open>EQU\<close>), yet the patcher does not
  take it as already patched: it qualifies \<open>BAR\<close>, writes the file and creates the
  backup.
\<close>

theorem qualified_elsewhere_still_patched:
  "contains (read_text (str ''BAR EQU 2'' @ NL # str ''DEF FOO EQU 1'')) (str ''DEF FOO EQU'') \<and>
   patch_rgbds_syntax
     \<lparr>video_asm = Some (str ''BAR EQU 2'' @ NL # str ''DEF FOO EQU 1''), backup = None\<rparr> =
     (True, [CheckingSyntax, Patching, BackupCreated, PatchedOk],
      \<lparr>video_asm = Some (str ''DEF BAR EQU 2'' @ NL # str ''DEF FOO EQU 1''),
       backup = Some (str ''BAR EQU 2'' @ NL # str ''DEF FOO EQU 1'')\<rparr>) \<and>
   files_after
     \<lparr>video_asm = Some (str ''BAR EQU 2'' @ NL # str ''DEF FOO EQU 1''), backup = None\<rparr> \<noteq>
     \<lparr>video_asm = Some (str ''BAR EQU 2'' @ NL # str ''DEF FOO EQU 1''), backup = None\<rparr>"
  by (simp add: files_after_def patch_rgbds_syntax_def already_patched_def contains_def str_def
      sublist_code(3) write_text_def patch_line_def skip_line_def startswith_def strip_def
      is_space_def re_match_equ_def is_ident_start_def is_ident_char_def Let_def)

text \<open>
  C4, amended. When the text \<open>DEF PULLDOWN_SKIPF EQU\<close> appears anywhere in the file, the
  patcher takes the whole file as already patched: it reports success, writes nothing and
  creates no backup, whatever the other lines are.
\<close>

theorem already_patched_untouched:
  "video_asm fs = Some raw \<Longrightarrow>
   contains (read_text raw) (str ''DEF PULLDOWN_SKIPF EQU'') \<Longrightarrow>
   patch_rgbds_syntax fs = (True, [CheckingSyntax, AlreadyPatched], fs)"
  by (simp add: patch_rgbds_syntax_def already_patched_def)

theorem already_patched_untouched_witness:
  "video_asm \<lparr>video_asm = Some (str ''DEF PULLDOWN_SKIPF EQU 1'' @ NL # str ''BAR EQU 2''),
              backup = None\<rparr> =
     Some (str ''DEF PULLDOWN_SKIPF EQU 1'' @ NL # str ''BAR EQU 2'') \<and>
   contains (read_text (str ''DEF PULLDOWN_SKIPF EQU 1'' @ NL # str ''BAR EQU 2''))
     (str ''DEF PULLDOWN_SKIPF EQU'') \<and>
   patch_rgbds_syntax
     \<lparr>video_asm = Some (str ''DEF PULLDOWN_SKIPF EQU 1'' @ NL # str ''BAR EQU 2''),
      backup = None\<rparr> =
     (True, [CheckingSyntax, AlreadyPatched],
      \<lparr>video_asm = Some (str ''DEF PULLDOWN_SKIPF EQU 1'' @ NL # str ''BAR EQU 2''),
       backup = None\<rparr>)"
proof -
  let ?raw = "str ''DEF PULLDOWN_SKIPF EQU 1'' @ NL # str ''BAR EQU 2''"
  let ?fs = "\<lparr>video_asm = Some ?raw, backup = None\<rparr>"
  have f: "video_asm ?fs = Some ?raw" by simp
  have g: "contains (read_text ?raw) (str ''DEF PULLDOWN_SKIPF EQU'')"
    by (simp add: contains_def str_def sublist_code(3))
  from f g already_patched_untouched[OF f g] show ?thesis by (intro conjI)
qed

text \<open>
  C5, as stated, fails. With every command found and both libraries missing, the report
  names Pillow only: the probe returns at the first missing library. With \<open>ffmpeg\<close> and
  Pillow missing, the report lists \<open>ffmpeg\<close> only: the libraries are not looked at once
  a command is missing.
\<close>

theorem second_missing_library_unreported:
  "\<not> has_soundfile \<lparr>which = (\<lambda>cmd. True), has_PIL = False, has_soundfile = False\<rparr> \<and>
   check_dependencies \<lparr>which = (\<lambda>cmd. True), has_PIL = False, has_soundfile = False\<rparr> =
     (False, [MissingPillow, PillowHint]) \<and>
   \<not> has_PIL \<lparr>which = (\<lambda>cmd. cmd \<noteq> ''ffmpeg''), has_PIL = False, has_soundfile = True\<rparr> \<and>
   check_dependencies \<lparr>which = (\<lambda>cmd. cmd \<noteq> ''ffmpeg''), has_PIL = False, has_soundfile = True\<rparr> =
     (False, [MissingDepsHeader,
              Text (str ''  - FFmpeg (for video/audio processing) (ffmpeg)''),
              InstallRgbdsHint])"
  by (simp add: check_dependencies_def deps_def missing_entry_def str_def)

text \<open>
  C5, amended. The verdict passes exactly when every required command is found and both
  libraries import, so any missing dependency fails it. Every required command is looked
  up, with no stop at the first one missing: when one or more are missing, the listing
  printed has one line for each missing command, in the order of \<open>deps\<close>, and nothing
  else. The libraries are looked at only when every command is found, Pillow first, and
  the first one missing is the one reported.
\<close>

theorem check_dependencies_report:
  "(fst (check_dependencies e) \<longleftrightarrow>
      list_all (\<lambda>d. which e (fst d)) deps \<and> has_PIL e \<and> has_soundfile e) \<and>
   (list_ex (\<lambda>d. \<not> which e (fst d)) deps \<longrightarrow>
      (\<exists>listing. snd (check_dependencies e) =
                    [MissingDepsHeader, Text listing, InstallRgbdsHint] \<and>
                  split_nl listing =
                    map missing_entry (filter (\<lambda>d. \<not> which e (fst d)) deps))) \<and>
   (list_all (\<lambda>d. which e (fst d)) deps \<and> \<not> has_PIL e \<longrightarrow>
      snd (check_dependencies e) = [MissingPillow, PillowHint]) \<and>
   (list_all (\<lambda>d. which e (fst d)) deps \<and> has_PIL e \<and> \<not> has_soundfile e \<longrightarrow>
      snd (check_dependencies e) = [MissingSoundfile, SoundfileHint])"
proof (intro conjI impI)
  show "fst (check_dependencies e) \<longleftrightarrow>
      list_all (\<lambda>d. which e (fst d)) deps \<and> has_PIL e \<and> has_soundfile e"
  proof (cases "list_all (\<lambda>d. which e (fst d)) deps")
    case True
    then show ?thesis by (simp add: check_dependencies_found)
  next
    case False
    then have "list_ex (\<lambda>d. \<not> which e (fst d)) deps"
      by (simp add: list_all_iff list_ex_iff)
    with False show ?thesis by (simp add: check_dependencies_missing)
  qed
next
  assume m: "list_ex (\<lambda>d. \<not> which e (fst d)) deps"
  let ?ms = "map missing_entry (filter (\<lambda>d. \<not> which e (fst d)) deps)"
  have ne: "?ms \<noteq> []"
    using m by (simp add: list_ex_iff filter_empty_conv)
  have nl: "\<forall>l\<in>set ?ms. NL \<notin> set l"
    using missing_entry_no_NL by auto
  have "split_nl (join_nl ?ms) = ?ms"
    using ne nl by (rule split_join_nl)
  with m show "\<exists>listing. snd (check_dependencies e) =
                    [MissingDepsHeader, Text listing, InstallRgbdsHint] \<and>
                  split_nl listing = ?ms"
    by (simp add: check_dependencies_missing)
next
  assume "list_all (\<lambda>d. which e (fst d)) deps \<and> \<not> has_PIL e"
  then show "snd (check_dependencies e) = [MissingPillow, PillowHint]"
    by (simp add: check_dependencies_found)
next
  assume "list_all (\<lambda>d. which e (fst d)) deps \<and> has_PIL e \<and> \<not> has_soundfile e"
  then show "snd (check_dependencies e) = [MissingSoundfile, SoundfileHint]"
    by (simp add: check_dependencies_found)
qed

theorem check_dependencies_report_witness:
  "list_ex (\<lambda>d. \<not> which \<lparr>which = (\<lambda>cmd. cmd \<noteq> ''ffmpeg'' \<and> cmd \<noteq> ''rgbfix''),
                           has_PIL = False, has_soundfile = True\<rparr> (fst d)) deps \<and>
   \<not> fst (check_dependencies \<lparr>which = (\<lambda>cmd. cmd \<noteq> ''ffmpeg'' \<and> cmd \<noteq> ''rgbfix''),
                               has_PIL = False, has_soundfile = True\<rparr>) \<and>
   (\<exists>listing.
      snd (check_dependencies \<lparr>which = (\<lambda>cmd. cmd \<noteq> ''ffmpeg'' \<and> cmd \<noteq> ''rgbfix''),
                               has_PIL = False, has_soundfile = True\<rparr>) =
        [MissingDepsHeader, Text listing, InstallRgbdsHint] \<and>
      split_nl listing =
        [str ''  - FFmpeg (for video/audio processing) (ffmpeg)'',
         str ''  - RGBDS ROM fixer (rgbfix)'']) \<and>
   list_all (\<lambda>d. which (env calm_world\<lparr>has_PIL := False\<rparr>) (fst d)) deps \<and>
   \<not> has_PIL (env calm_world\<lparr>has_PIL := False\<rparr>) \<and>
   snd (check_dependencies (env calm_world\<lparr>has_PIL := False\<rparr>)) = [MissingPillow, PillowHint]"
proof -
  let ?e = "\<lparr>which = (\<lambda>cmd. cmd \<noteq> ''ffmpeg'' \<and> cmd \<noteq> ''rgbfix''),
            has_PIL = False, has_soundfile = True\<rparr>"
  let ?e' = "env calm_world\<lparr>has_PIL := False\<rparr>"
  have m: "list_ex (\<lambda>d. \<not> which ?e (fst d)) deps"
    by (simp add: deps_def)
  have f: "map missing_entry (filter (\<lambda>d. \<not> which ?e (fst d)) deps) =
      [str ''  - FFmpeg (for video/audio processing) (ffmpeg)'',
       str ''  - RGBDS ROM fixer (rgbfix)'']"
    by (simp add: deps_def missing_entry_def str_def)
  have a: "list_all (\<lambda>d. which ?e' (fst d)) deps"
    by (simp add: deps_def calm_world_def)
  have p: "\<not> has_PIL ?e'" by simp
  note T = check_dependencies_report
  from T[of ?e] m have 1: "\<not> fst (check_dependencies ?e)"
    by (simp add: list_all_iff list_ex_iff)
  from T[of ?e, THEN conjunct2, THEN conjunct1, rule_format, OF m] f
  have 2: "\<exists>listing. snd (check_dependencies ?e) =
        [MissingDepsHeader, Text listing, InstallRgbdsHint] \<and>
      split_nl listing =
        [str ''  - FFmpeg (for video/audio processing) (ffmpeg)'',
         str ''  - RGBDS ROM fixer (rgbfix)'']"
    by simp
  from T[of ?e', THEN conjunct2, THEN conjunct2, THEN conjunct1, rule_format, OF conjI[OF a p]]
  have 3: "snd (check_dependencies ?e') = [MissingPillow, PillowHint]" .
  show ?thesis
    apply (intro conjI)
         apply (rule m)
        apply (rule 1)
       apply (rule 2)
      apply (rule a)
     apply (rule p)
    apply (rule 3)
    done
qed

text \<open>
  C6. When the run gets as far as the frames (valid options, the input exists, the
  dependencies pass), frame extraction succeeds, audio is requested and its extraction
  fails, and the build as invoked succeeds, then the run ends with status 0 after the
  warning that it continues without audio and after the ROM is built, and make is
  invoked without the SOUND parameter. In every run, and in every call of
  \<open>build_rom\<close>, the SOUND parameter is passed only if audio was requested (a waveform
  path was handed over) and that file exists when the build is invoked.
\<close>

theorem audio_failure_degrades:
  "(\<forall>a w fc fm.
      config a \<in> {0, 1, 2} \<and> input_exists w \<and> fst (check_dependencies (env w)) \<and>
      extract_frames w (Arg (input_path a)) (config a) (fps_multiplier a) = Inr (True, fc, fm) \<and>
      \<not> no_audio a \<and>
      \<not> fst (extract_audio w (Arg (input_path a)) (Under (repo a) ''sound.wav'')) \<and>
      fst (build_rom w (Arg (output_path a)) (config a) (fps_multiplier a) None) \<longrightarrow>
      status (main a w) = Exit 0 \<and>
      spawned (main a w) =
        fc @ [FfmpegAudio (Arg (input_path a)) (Under (repo a) ''sound.wav''),
              Make (config a) (fps_multiplier a) None] \<and>
      ContinuingWithoutAudio \<in> set (printed (main a w)) \<and>
      RomBuilt \<in> set (printed (main a w)) \<and>
      last (printed (main a w)) = Success) \<and>
   (\<forall>a w c p s.
      Make c p (Some s) \<in> set (spawned (main a w)) \<longrightarrow> \<not> no_audio a \<and> exists_at_build w s) \<and>
   (\<forall>w out c p sp c' p' s.
      Make c' p' (Some s) \<in> set (fst (snd (build_rom w out c p sp))) \<longrightarrow>
      sp = Some s \<and> exists_at_build w s)"
proof (intro conjI allI impI)
  fix a :: args and w :: world and fc :: "command list" and fm :: "msg list"
  assume h: "config a \<in> {0, 1, 2} \<and> input_exists w \<and> fst (check_dependencies (env w)) \<and>
      extract_frames w (Arg (input_path a)) (config a) (fps_multiplier a) = Inr (True, fc, fm) \<and>
      \<not> no_audio a \<and>
      \<not> fst (extract_audio w (Arg (input_path a)) (Under (repo a) ''sound.wav'')) \<and>
      fst (build_rom w (Arg (output_path a)) (config a) (fps_multiplier a) None)"
  then have r: "status (main a w) = Exit 0 \<and>
         spawned (main a w) =
           fc @ [FfmpegAudio (Arg (input_path a)) (Under (repo a) ''sound.wav''),
                 Make (config a) (fps_multiplier a) None] \<and>
         ContinuingWithoutAudio \<in> set (printed (main a w)) \<and>
         RomBuilt \<in> set (printed (main a w)) \<and>
         last (printed (main a w)) = Success"
    by (intro main_degrades) simp_all
  from r show "status (main a w) = Exit 0" by simp
  from r show "spawned (main a w) =
           fc @ [FfmpegAudio (Arg (input_path a)) (Under (repo a) ''sound.wav''),
                 Make (config a) (fps_multiplier a) None]" by simp
  from r show "ContinuingWithoutAudio \<in> set (printed (main a w))" by simp
  from r show "RomBuilt \<in> set (printed (main a w))" by simp
  from r show "last (printed (main a w)) = Success" by simp
next
  fix a :: args and w :: world and c :: int and p :: real and s :: path
  assume m: "Make c p (Some s) \<in> set (spawned (main a w))"
  from main_sound[OF m] show "\<not> no_audio a" by simp
  from main_sound[OF m] show "exists_at_build w s" by simp
next
  fix w :: world and out :: path and c c' :: int and p p' :: real and sp :: "path option" and s :: path
  assume m: "Make c' p' (Some s) \<in> set (fst (snd (build_rom w out c p sp)))"
  from build_rom_sound[OF m] show "sp = Some s" by simp
  from build_rom_sound[OF m] show "exists_at_build w s" by simp
qed

theorem audio_failure_degrades_witness:
  "config default_args \<in> {0, 1, 2} \<and> input_exists silent_world \<and>
   fst (check_dependencies (env silent_world)) \<and>
   extract_frames silent_world (Arg (input_path default_args)) (config default_args)
       (fps_multiplier default_args) =
     Inr (True, [FfmpegFrames (Arg ''in.mp4'') 30 160 72],
          [ExtractingFrames, FramesExtracted 0 160 72 30]) \<and>
   \<not> no_audio default_args \<and>
   \<not> fst (extract_audio silent_world (Arg (input_path default_args))
            (Under (repo default_args) ''sound.wav'')) \<and>
   fst (build_rom silent_world (Arg (output_path default_args)) (config default_args)
          (fps_multiplier default_args) None) \<and>
   status (main default_args silent_world) = Exit 0 \<and>
   spawned (main default_args silent_world) =
     [FfmpegFrames (Arg ''in.mp4'') 30 160 72,
      FfmpegAudio (Arg ''in.mp4'') (Under ''.'' ''sound.wav''),
      Make 0 1 None] \<and>
   Make 0 1 (Some (Under ''.'' ''sound.wav'')) \<in> set (spawned (main default_args calm_world)) \<and>
   exists_at_build calm_world (Under ''.'' ''sound.wav'')"
proof -
  let ?a = default_args
  let ?w = silent_world
  have c: "config ?a \<in> {0, 1, 2}" by (simp add: default_args_def)
  have i: "input_exists ?w" by (simp add: silent_world_def calm_world_def)
  have d: "fst (check_dependencies (env ?w))"
    by (simp add: silent_world_def calm_world_def check_dependencies_def deps_def)
  have f: "extract_frames ?w (Arg (input_path ?a)) (config ?a) (fps_multiplier ?a) =
     Inr (True, [FfmpegFrames (Arg ''in.mp4'') 30 160 72],
          [ExtractingFrames, FramesExtracted 0 160 72 30])"
    by (simp add: extract_frames_def py_truediv_def resolution_def configs_def
        silent_world_def calm_world_def default_args_def)
  have n: "\<not> no_audio ?a" by (simp add: default_args_def)
  have au: "\<not> fst (extract_audio ?w (Arg (input_path ?a)) (Under (repo ?a) ''sound.wav''))"
    by (simp add: extract_audio_def silent_world_def calm_world_def)
  have b: "fst (build_rom ?w (Arg (output_path ?a)) (config ?a) (fps_multiplier ?a) None)"
    by (simp add: build_rom_def silent_world_def calm_world_def)
  note T = audio_failure_degrades
  note r = T[THEN conjunct1, rule_format, of ?a ?w,
      OF conjI[OF c conjI[OF i conjI[OF d conjI[OF f conjI[OF n conjI[OF au b]]]]]]]
  from r have s: "status (main ?a ?w) = Exit 0" by simp
  from r have sp: "spawned (main ?a ?w) =
     [FfmpegFrames (Arg ''in.mp4'') 30 160 72,
      FfmpegAudio (Arg ''in.mp4'') (Under ''.'' ''sound.wav''),
      Make 0 1 None]"
    by (simp add: default_args_def)
  have m: "Make 0 1 (Some (Under ''.'' ''sound.wav'')) \<in> set (spawned (main ?a calm_world))"
    by (simp add: main_def pipeline_def patch_step_def patch_rgbds_syntax_def
        check_dependencies_def deps_def extract_frames_def extract_audio_def build_rom_def
        py_truediv_def resolution_def configs_def calm_world_def default_args_def Let_def)
  from T[THEN conjunct2, THEN conjunct1, rule_format, OF m]
  have e: "exists_at_build calm_world (Under ''.'' ''sound.wav'')" by simp
  show ?thesis
    apply (intro conjI)
              apply (rule c)
             apply (rule i)
            apply (rule d)
           apply (rule f)
          apply (rule n)
         apply (rule au)
        apply (rule b)
       apply (rule s)
      apply (rule sp)
     apply (rule m)
    apply (rule e)
    done
qed

text \<open>
  C7. The resolution mapping sends profile 0 to (160, 72), profile 1 to (160, 64),
  profile 2 to (160, 56) and every other profile to (160, 72); the ffmpeg command of
  frame extraction carries the width and height it gives.
\<close>

theorem resolution_mapping:
  "resolution 0 = (160, 72) \<and> resolution 1 = (160, 64) \<and> resolution 2 = (160, 56) \<and>
   (\<forall>c. c \<notin> {0, 1, 2} \<longrightarrow> resolution c = (160, 72)) \<and>
   (\<forall>w v c p. p \<noteq> 0 \<longrightarrow>
      (\<exists>ok msgs. extract_frames w v c p =
         Inr (ok, [FfmpegFrames v (30 / p) (fst (resolution c)) (snd (resolution c))], msgs)))"
  using extract_frames_command by (simp add: resolution_def configs_def)

theorem resolution_mapping_witness:
  "(7::int) \<notin> {0, 1, 2} \<and> resolution 7 = (160, 72) \<and> (2::real) \<noteq> 0 \<and>
   (\<exists>ok msgs. extract_frames calm_world (Arg ''in.mp4'') 7 2 =
      Inr (ok, [FfmpegFrames (Arg ''in.mp4'') (30 / 2) (fst (resolution 7)) (snd (resolution 7))],
           msgs))"
proof -
  have a: "(7::int) \<notin> {0, 1, 2}" by simp
  have b: "(2::real) \<noteq> 0" by simp
  note T = resolution_mapping
  note r = T[THEN conjunct2, THEN conjunct2, THEN conjunct2, THEN conjunct1, rule_format, OF a]
  note f = T[THEN conjunct2, THEN conjunct2, THEN conjunct2, THEN conjunct2, rule_format,
      of 2 calm_world "Arg ''in.mp4''" 7, OF b]
  show ?thesis
    apply (intro conjI)
       apply (rule a)
      apply (rule r)
     apply (rule b)
    apply (rule f)
    done
qed

text \<open>
  C8. For every positive timing parameter \<open>p\<close> frame extraction runs ffmpeg at the frame
  rate \<open>30 / p\<close>; the multiplier 1 gives 30, the multiplier 0.5 gives 60 and the
  multiplier 2 gives 15. (Floats are idealised as reals; the three examples are exact in
  binary floating point as well.)
\<close>

theorem derived_frame_rate:
  "(\<forall>w v c p. 0 < p \<longrightarrow>
      (\<exists>ok msgs. extract_frames w v c p =
         Inr (ok, [FfmpegFrames v (30 / p) (fst (resolution c)) (snd (resolution c))], msgs))) \<and>
   py_truediv 30 1 = Inr 30 \<and> py_truediv 30 (1 / 2) = Inr 60 \<and> py_truediv 30 2 = Inr 15 \<and>
   (\<forall>w v c. \<exists>ok msgs.
      extract_frames w v c 1 =
        Inr (ok, [FfmpegFrames v 30 (fst (resolution c)) (snd (resolution c))], msgs)) \<and>
   (\<forall>w v c. \<exists>ok msgs.
      extract_frames w v c (1 / 2) =
        Inr (ok, [FfmpegFrames v 60 (fst (resolution c)) (snd (resolution c))], msgs)) \<and>
   (\<forall>w v c. \<exists>ok msgs.
      extract_frames w v c 2 =
        Inr (ok, [FfmpegFrames v 15 (fst (resolution c)) (snd (resolution c))], msgs))"
proof (intro conjI allI impI)
  fix w :: world and v :: path and c :: int and p :: real
  assume "0 < p"
  then have "p \<noteq> 0" by simp
  then show "\<exists>ok msgs. extract_frames w v c p =
         Inr (ok, [FfmpegFrames v (30 / p) (fst (resolution c)) (snd (resolution c))], msgs)"
    by (rule extract_frames_command)
next
  fix w :: world and v :: path and c :: int
  show "\<exists>ok msgs. extract_frames w v c 1 =
        Inr (ok, [FfmpegFrames v 30 (fst (resolution c)) (snd (resolution c))], msgs)"
    using extract_frames_command[of 1 w v c] by simp
next
  fix w :: world and v :: path and c :: int
  show "\<exists>ok msgs. extract_frames w v c (1 / 2) =
        Inr (ok, [FfmpegFrames v 60 (fst (resolution c)) (snd (resolution c))], msgs)"
    using extract_frames_command[of "1 / 2" w v c] by simp
next
  fix w :: world and v :: path and c :: int
  show "\<exists>ok msgs. extract_frames w v c 2 =
        Inr (ok, [FfmpegFrames v 15 (fst (resolution c)) (snd (resolution c))], msgs)"
    using extract_frames_command[of 2 w v c] by simp
qed (simp_all add: py_truediv_def)

theorem derived_frame_rate_witness:
  "(0::real) < 3 / 2 \<and>
   (\<exists>ok msgs. extract_frames calm_world (Arg ''in.mp4'') 1 (3 / 2) =
      Inr (ok, [FfmpegFrames (Arg ''in.mp4'') 20 160 64], msgs))"
proof -
  have a: "(0::real) < 3 / 2" by simp
  from derived_frame_rate[THEN conjunct1, rule_format, of "3 / 2" calm_world "Arg ''in.mp4''" 1, OF a]
  have "\<exists>ok msgs. extract_frames calm_world (Arg ''in.mp4'') 1 (3 / 2) =
      Inr (ok, [FfmpegFrames (Arg ''in.mp4'') 20 160 64], msgs)"
    by (simp add: resolution_def configs_def)
  with a show ?thesis by (intro conjI)
qed

text \<open>
  C9. \<open>patch_rgbds_syntax\<close> returns success whatever the state of the file (missing,
  taken as already patched, or patched now), and no run of \<open>main\<close> prints the warning
  of a failed patch.
\<close>

theorem patch_never_fails:
  "fst (patch_rgbds_syntax fs) \<and> PatchFailedWarning \<notin> set (printed (main a w))"
proof
  show "fst (patch_rgbds_syntax fs)" by (rule patch_rgbds_syntax_ok)
next
  obtain pm fs' where ps: "patch_step a (asm w) = (pm, fs')"
    by (cases "patch_step a (asm w)")
  with patch_step_quiet[of a "asm w"] have pm: "PatchFailedWarning \<notin> set pm" by simp
  obtain dok dm where d: "check_dependencies (env w) = (dok, dm)"
    by (cases "check_dependencies (env w)")
  with check_dependencies_quiet[of "env w"] have dm: "PatchFailedWarning \<notin> set dm" by simp
  have "PatchFailedWarning \<notin> set (printed (pipeline a w (Banner t # CheckingDeps # dm @ AllDepsFound # pm) fs'))" for t
    using pm dm by (intro pipeline_quiet) simp
  with ps d dm show "PatchFailedWarning \<notin> set (printed (main a w))"
    by (auto simp: main_def py_truediv_def Let_def)
qed

theorem patch_never_fails_witness:
  "fst (patch_rgbds_syntax \<lparr>video_asm = Some (str ''X EQU 1''), backup = None\<rparr>) \<and>
   PatchFailedWarning \<notin> set (printed (main default_args calm_world))"
  by (rule patch_never_fails)

text \<open>
  C10. Frame extraction divides 30 by the timing parameter with no guard: for every
  nonzero parameter (negative ones too) the division has a result and ffmpeg is run at
  that rate; for the parameter 0 the result is the error \<open>ZeroDivisionError\<close>. The
  command line does not reject any value of the multiplier (the only rejection, status
  2, is a profile outside 0, 1, 2), and with the multiplier 0 and an existing input the
  run ends in an uncaught \<open>ZeroDivisionError\<close> before any command is run.
\<close>

theorem unguarded_division:
  "(\<forall>w v c p. p \<noteq> 0 \<longrightarrow>
      (\<exists>ok msgs. extract_frames w v c p =
         Inr (ok, [FfmpegFrames v (30 / p) (fst (resolution c)) (snd (resolution c))], msgs))) \<and>
   (\<forall>w v c. extract_frames w v c 0 = Inl ZeroDivisionError) \<and>
   (\<forall>a w. config a \<in> {0, 1, 2} \<longrightarrow> status (main a w) \<noteq> Exit 2) \<and>
   (\<forall>a w. config a \<in> {0, 1, 2} \<and> input_exists w \<and> fps_multiplier a = 0 \<longrightarrow>
      status (main a w) = Uncaught ZeroDivisionError \<and> spawned (main a w) = [])"
proof (intro conjI allI impI)
  fix w :: world and v :: path and c :: int and p :: real
  assume "p \<noteq> 0"
  then show "\<exists>ok msgs. extract_frames w v c p =
         Inr (ok, [FfmpegFrames v (30 / p) (fst (resolution c)) (snd (resolution c))], msgs)"
    by (rule extract_frames_command)
next
  fix w :: world and v :: path and c :: int
  show "extract_frames w v c 0 = Inl ZeroDivisionError"
    by (rule extract_frames_zero)
next
  fix a :: args and w :: world
  assume c: "config a \<in> {0, 1, 2}"
  show "status (main a w) \<noteq> Exit 2"
  proof (cases "input_exists w \<and> fps_multiplier a \<noteq> 0 \<and> fst (check_dependencies (env w))")
    case False
    with c show ?thesis
      by (auto simp: main_def py_truediv_def Let_def split: prod.splits)
  next
    case True
    obtain pm fs where ps: "patch_step a (asm w) = (pm, fs)"
      by (cases "patch_step a (asm w)")
    have "status (pipeline a w m fs) \<noteq> Exit 2" for m
      by (auto simp: pipeline_def Let_def split: sum.splits prod.splits)
    with c True ps show ?thesis
      by (auto simp: main_def py_truediv_def Let_def split: prod.splits)
  qed
next
  fix a :: args and w :: world
  assume "config a \<in> {0, 1, 2} \<and> input_exists w \<and> fps_multiplier a = 0"
  then show "status (main a w) = Uncaught ZeroDivisionError"
    by (simp add: main_def py_truediv_def)
next
  fix a :: args and w :: world
  assume "config a \<in> {0, 1, 2} \<and> input_exists w \<and> fps_multiplier a = 0"
  then show "spawned (main a w) = []"
    by (simp add: main_def py_truediv_def)
qed

theorem unguarded_division_witness:
  "(- 3 :: real) \<noteq> 0 \<and>
   (\<exists>ok msgs. extract_frames calm_world (Arg ''in.mp4'') 0 (- 3) =
      Inr (ok, [FfmpegFrames (Arg ''in.mp4'') (- 10) 160 72], msgs)) \<and>
   config (default_args\<lparr>fps_multiplier := 0\<rparr>) \<in> {0, 1, 2} \<and>
   input_exists calm_world \<and>
   fps_multiplier (default_args\<lparr>fps_multiplier := 0\<rparr>) = 0 \<and>
   status (main (default_args\<lparr>fps_multiplier := 0\<rparr>) calm_world) \<noteq> Exit 2 \<and>
   status (main (default_args\<lparr>fps_multiplier := 0\<rparr>) calm_world) = Uncaught ZeroDivisionError"
proof -
  let ?a = "default_args\<lparr>fps_multiplier := 0\<rparr>"
  have nz: "(- 3 :: real) \<noteq> 0" by simp
  have c: "config ?a \<in> {0, 1, 2}" by (simp add: default_args_def)
  have i: "input_exists calm_world" by (simp add: calm_world_def)
  have z: "fps_multiplier ?a = 0" by simp
  note T = unguarded_division
  from T[THEN conjunct1, rule_format, of "- 3" calm_world "Arg ''in.mp4''" 0, OF nz]
  have 1: "\<exists>ok msgs. extract_frames calm_world (Arg ''in.mp4'') 0 (- 3) =
      Inr (ok, [FfmpegFrames (Arg ''in.mp4'') (- 10) 160 72], msgs)"
    by (simp add: resolution_def configs_def)
  note 2 = T[THEN conjunct2, THEN conjunct2, THEN conjunct1, rule_format, of ?a calm_world, OF c]
  from T[THEN conjunct2, THEN conjunct2, THEN conjunct2, rule_format, of ?a calm_world,
      OF conjI[OF c conjI[OF i z]]]
  have 3: "status (main ?a calm_world) = Uncaught ZeroDivisionError" by simp
  show ?thesis
    apply (intro conjI)
          apply (rule nz)
         apply (rule 1)
        apply (rule c)
       apply (rule i)
      apply (rule z)
     apply (rule 2)
    apply (rule 3)
    done
qed

end
